theory Spec2Isabelle
  imports Complex_Main
begin

unbundle bit_operations_syntax

section \<open>The circle bound of s2omp\<close>

text \<open>
  A shallow embedding of \<^verbatim>\<open>src/trunk/s2omp/circle_bound.cc\<close>: a spherical cap given by
  an axis and a height, with its containment, intersection, area, complement and sampling
  operations.

  The source computes with C++ \<^verbatim>\<open>double\<close>. Here a \<^verbatim>\<open>double\<close> is a \<^typ>\<open>real\<close>:
  every comparison and every branch of the source is kept, and the arithmetic is exact.
  Where a statement is about two computed heights being the very same \<^verbatim>\<open>double\<close>, the
  subtraction of \<^verbatim>\<open>complement\<close> is taken with its rounding (\<open>complement_double\<close>).
\<close>

subsection \<open>Points\<close>

text \<open>
  Modelled from the spec: the class \<^verbatim>\<open>point\<close> is used by the source but declared elsewhere.
  The spec gives it as a vector on the sphere with a dot product, a cross product and an
  optional scalar weight; \<^verbatim>\<open>point(x, y, z, weight)\<close> is the record below.
\<close>

record point =
  px :: real
  py :: real
  pz :: real
  weight :: real

text \<open>Modelled from the spec: \<^verbatim>\<open>a.dot(b)\<close>, the dot product of the coordinates.\<close>

definition dot :: "point \<Rightarrow> point \<Rightarrow> real" where
  "dot a b = px a * px b + py a * py b + pz a * pz b"

text \<open>
  Modelled from the spec: \<^verbatim>\<open>a.cross(b)\<close>, the cross product of the coordinates. The
  weight of the product is not fixed by the spec; it is taken as 1 and nothing below
  reads it.
\<close>

definition cross :: "point \<Rightarrow> point \<Rightarrow> point" where
  "cross a b =
     \<lparr>px = py a * pz b - pz a * py b,
      py = pz a * px b - px a * pz b,
      pz = px a * py b - py a * px b,
      weight = 1\<rparr>"

text \<open>
  Modelled from the spec: the unary minus of the source's \<^verbatim>\<open>-axis_\<close> negates the three
  coordinates; the weight is left as it is.
\<close>

definition neg :: "point \<Rightarrow> point" where
  "neg a = a\<lparr>px := - px a, py := - py a, pz := - pz a\<rparr>"

text \<open>Modelled from the spec: \<^verbatim>\<open>p.set_weight(w)\<close>, written as a function.\<close>

definition set_weight :: "real \<Rightarrow> point \<Rightarrow> point" where
  "set_weight w p = p\<lparr>weight := w\<rparr>"

text \<open>
  Modelled from the spec: \<^verbatim>\<open>point(x, y, z)\<close> with three arguments, as the source builds
  its random point. The weight such a point starts with is not fixed by the spec; it is
  taken as 1.
\<close>

definition point3 :: "real \<Rightarrow> real \<Rightarrow> real \<Rightarrow> point" where
  "point3 a b c = \<lparr>px = a, py = b, pz = c, weight = 1\<rparr>"

text \<open>A point of the unit sphere, the spec's invariant of a well-formed point.\<close>

definition unit_point :: "point \<Rightarrow> bool" where
  "unit_point p = (dot p p = 1)"

subsection \<open>Pixels\<close>

text \<open>
  Modelled from the spec: the class \<^verbatim>\<open>pixel\<close> is used by the source but declared
  elsewhere. The source reaches a pixel only through \<^verbatim>\<open>vertex(k)\<close>, \<^verbatim>\<open>edge(k)\<close>,
  \<^verbatim>\<open>contains(point)\<close>, \<^verbatim>\<open>exact_area()\<close> and the iteration from \<^verbatim>\<open>child_begin()\<close> to
  \<^verbatim>\<open>child_end()\<close>, so a pixel is the value of these five. The index of \<^verbatim>\<open>vertex\<close> and
  \<^verbatim>\<open>edge\<close> is the source's \<^verbatim>\<open>int\<close>; the spec documents the indices 0 to 3, and what a
  pixel answers at another index is part of the pixel. The hierarchy has a finest
  resolution, so a pixel with all its descendants is a finite tree.
\<close>

datatype pixel =
  Pixel (vertex: "int \<Rightarrow> point") (edge: "int \<Rightarrow> point") (pcontains: "point \<Rightarrow> bool")
    (exact_area: real) (children: "pixel list")

subsection \<open>The bound\<close>

record circle_bound =
  axis :: point
  height :: real

text \<open>
  \<^verbatim>\<open>circle_bound()\<close> sets only the height; the axis is what the default constructor of
  \<^verbatim>\<open>point\<close> leaves there, a parameter here.
\<close>

definition circle_bound_default :: "point \<Rightarrow> circle_bound" where
  "circle_bound_default p0 = \<lparr>axis = p0, height = - 1\<rparr>"

definition circle_bound_of :: "point \<Rightarrow> real \<Rightarrow> circle_bound" where
  "circle_bound_of a h = \<lparr>axis = a, height = h\<rparr>"

definition from_height :: "point \<Rightarrow> real \<Rightarrow> circle_bound" where
  "from_height a h = circle_bound_of a h"

text \<open>
  \<^verbatim>\<open>DEG_TO_RAD\<close> and \<^verbatim>\<open>PI\<close> come from a header that is not among the sources;
  \<^verbatim>\<open>stomp_core.cc\<close> defines its own as \<^verbatim>\<open>2.0*asin(1.0)\<close> and \<^verbatim>\<open>Pi/180.0\<close>.
\<close>

definition PI :: real where
  "PI = pi"

definition DEG_TO_RAD :: real where
  "DEG_TO_RAD = PI / 180"

definition from_radius :: "point \<Rightarrow> real \<Rightarrow> circle_bound" where
  "from_radius a radius_degrees = circle_bound_of a (1 - cos (radius_degrees * DEG_TO_RAD))"

definition is_empty :: "circle_bound \<Rightarrow> bool" where
  "is_empty B = (height B < 0)"

definition size_cb :: "circle_bound \<Rightarrow> int" where
  "size_cb B = (if is_empty B then 0 else 1)"

definition area :: "circle_bound \<Rightarrow> real" where
  "area B = (if \<not> is_empty B then 2 * PI * height B else 0)"

definition contains :: "circle_bound \<Rightarrow> point \<Rightarrow> bool" where
  "contains B p = (let p_height = 1 - dot (axis B) p in height B \<ge> p_height)"

text \<open>\<^verbatim>\<open>complement()\<close>, with the subtraction \<^verbatim>\<open>2.0 - height_\<close> exact.\<close>

definition complement :: "circle_bound \<Rightarrow> circle_bound" where
  "complement B =
     (if is_empty B then from_height (neg (axis B)) 2
      else from_height (neg (axis B)) (2 - height B))"

subsection \<open>The subtraction of complement, rounded\<close>

text \<open>
  The \<^verbatim>\<open>double\<close> of the source is IEEE 754 binary64, and \<^verbatim>\<open>2.0 - height_\<close> is the exact
  difference rounded to the nearest \<^verbatim>\<open>double\<close>, ties to the even significand. A
  \<^verbatim>\<open>double\<close> other than 0 is an integer multiple of \<^verbatim>\<open>2^(e-52)\<close>, where \<^verbatim>\<open>2^e\<close> is the
  power of two at or below its magnitude and \<open>e\<close> is at least \<open>-1022\<close> (below that the
  spacing stays \<^verbatim>\<open>2^-1074\<close>). Overflow is left out: the values here do not exceed 2.
\<close>

definition round_half_even :: "real \<Rightarrow> int" where
  "round_half_even m =
     (let f = \<lfloor>m\<rfloor>; r = m - of_int f
      in if r < 1 / 2 then f else if r > 1 / 2 then f + 1 else if even f then f else f + 1)"

definition double_exponent :: "real \<Rightarrow> int" where
  "double_exponent x = max \<lfloor>log 2 \<bar>x\<bar>\<rfloor> (- 1022)"

definition round_double :: "real \<Rightarrow> real" where
  "round_double x =
     (if x = 0 then 0
      else (let e = double_exponent x - 52
            in of_int (round_half_even (x / 2 powi e)) * 2 powi e))"

definition double_sub :: "real \<Rightarrow> real \<Rightarrow> real" where
  "double_sub a b = round_double (a - b)"

text \<open>\<^verbatim>\<open>complement()\<close>, with the subtraction \<^verbatim>\<open>2.0 - height_\<close> rounded.\<close>

definition complement_double :: "circle_bound \<Rightarrow> circle_bound" where
  "complement_double B =
     (if is_empty B then from_height (neg (axis B)) 2
      else from_height (neg (axis B)) (double_sub 2 (height B)))"

subsection \<open>The edge test\<close>

text \<open>
  The loop of \<^verbatim>\<open>intersects\<close> over the four edges, from index \<open>k\<close> on. \<^verbatim>\<open>continue\<close> is
  the recursive call, \<^verbatim>\<open>return\<close> ends the loop. The vector \<^verbatim>\<open>vertices\<close> is read with the
  unchecked \<^verbatim>\<open>operator[]\<close>; the callers pass four entries.
\<close>

function intersects_edges ::
  "circle_bound \<Rightarrow> pixel \<Rightarrow> point list \<Rightarrow> real \<Rightarrow> int \<Rightarrow> bool" where
  "intersects_edges B pix vertices sin2_angle k =
     (if k < 4 then
        (let e = edge pix k; d = dot (axis B) e in
         if d > 0 then intersects_edges B pix vertices sin2_angle (k + 1)
         else if d * d > sin2_angle then False
         else
           (let dir = cross e (axis B) in
            if dot dir (vertices ! nat k) < 0 \<and> dot dir (vertices ! nat ((k + 1) AND 3)) > 0
            then True
            else intersects_edges B pix vertices sin2_angle (k + 1)))
      else False)"
  by pat_completeness auto
termination
  by (relation "measure (\<lambda>(B, pix, vertices, sin2_angle, k). nat (4 - k))") auto

definition intersects :: "circle_bound \<Rightarrow> pixel \<Rightarrow> point list \<Rightarrow> bool" where
  "intersects B pix vertices =
     (if height B \<ge> 1 then False
      else if is_empty B then False
      else if pcontains pix (axis B) then True
      else intersects_edges B pix vertices (height B * (2 - height B)) 0)"

subsection \<open>Pixel queries\<close>

text \<open>
  The loop of \<^verbatim>\<open>may_intersect\<close>: each round appends \<^verbatim>\<open>pix.vertex(4)\<close> to \<^verbatim>\<open>vertices\<close>,
  as the source has it, and tests the point just appended.
\<close>

function may_intersect_loop :: "circle_bound \<Rightarrow> pixel \<Rightarrow> point list \<Rightarrow> int \<Rightarrow> bool" where
  "may_intersect_loop B pix vertices k =
     (if k < 4 then
        (let vertices' = vertices @ [vertex pix 4] in
         if contains B (last vertices') then True
         else may_intersect_loop B pix vertices' (k + 1))
      else intersects B pix vertices)"
  by pat_completeness auto
termination
  by (relation "measure (\<lambda>(B, pix, vertices, k). nat (4 - k))") auto

definition may_intersect :: "circle_bound \<Rightarrow> pixel \<Rightarrow> bool" where
  "may_intersect B pix = may_intersect_loop B pix [] 0"

text \<open>The loop of \<^verbatim>\<open>contains(const pixel&)\<close> over the four vertices.\<close>

function contains_vertices :: "circle_bound \<Rightarrow> pixel \<Rightarrow> int \<Rightarrow> bool" where
  "contains_vertices B pix k =
     (if k < 4 then
        (if \<not> contains B (vertex pix k) then False else contains_vertices B pix (k + 1))
      else True)"
  by pat_completeness auto
termination
  by (relation "measure (\<lambda>(B, pix, k). nat (4 - k))") auto

definition contains_pixel :: "circle_bound \<Rightarrow> pixel \<Rightarrow> bool" where
  "contains_pixel B pix =
     (if \<not> contains_vertices B pix 0 then False
      else (let comp = complement B; ans = \<not> may_intersect comp pix in ans))"

text \<open>
  \<^verbatim>\<open>contained_area\<close>: the accumulator \<^verbatim>\<open>area\<close> starts at 0 and takes the children in the
  order of the iteration.
\<close>

fun contained_area :: "circle_bound \<Rightarrow> pixel \<Rightarrow> real" where
  "contained_area B (Pixel v e c a ch) =
     (if contains_pixel B (Pixel v e c a ch) then exact_area (Pixel v e c a ch)
      else if may_intersect B (Pixel v e c a ch)
        then foldl (\<lambda>area child. area + contained_area B child) 0 ch
      else 0)"

subsection \<open>Random sampling\<close>

text \<open>
  The generator \<^verbatim>\<open>mtrand\<close> and \<^verbatim>\<open>point::rotate_about\<close> are declared outside the sources.
  They are parameters: \<open>seed\<close> is \<^verbatim>\<open>mtrand.seed()\<close>, \<open>rand n\<close> is \<^verbatim>\<open>mtrand.rand(n)\<close> and
  \<open>randInt n\<close> is \<^verbatim>\<open>mtrand.randInt(n)\<close>, each taking the generator's state \<open>'g\<close> and
  returning the next one; \<open>rotate_about a t p\<close> is the point \<open>p\<close> after
  \<^verbatim>\<open>p.rotate_about(a, t)\<close>.
\<close>

record 'g externals =
  seed :: "'g \<Rightarrow> 'g"
  rand :: "real \<Rightarrow> 'g \<Rightarrow> real \<times> 'g"
  randInt :: "nat \<Rightarrow> 'g \<Rightarrow> nat \<times> 'g"
  rotate_about :: "point \<Rightarrow> real \<Rightarrow> point \<Rightarrow> point"

text \<open>The members of the bound that sampling reads and writes.\<close>

record 'g random_state =
  initialized_random :: bool
  rotate_cb :: real
  great_circle_norm :: point
  mtrand :: 'g

definition initialize_random ::
  "'g externals \<Rightarrow> circle_bound \<Rightarrow> 'g random_state \<Rightarrow> 'g random_state" where
  "initialize_random E B s =
     s\<lparr>mtrand := seed E (mtrand s),
       rotate_cb := dot (axis B) \<lparr>px = 0, py = 0, pz = 1, weight = 1\<rparr>,
       great_circle_norm := cross \<lparr>px = 0, py = 0, pz = 1, weight = 1\<rparr> (axis B)\<rparr>"

definition get_random_point ::
  "'g externals \<Rightarrow> circle_bound \<Rightarrow> 'g random_state \<Rightarrow> point \<times> 'g random_state" where
  "get_random_point E B s =
     (let s1 = (if \<not> initialized_random s then initialize_random E B s else s);
          (r, g1) = rand E (height B) (mtrand s1);
          z = r + 1 - height B;
          (phi, g2) = rand E (2 * PI) g1;
          sintheta = sin (arccos z);
          p = point3 (sintheta * cos phi) (sintheta * sin phi) z
      in (rotate_about E (great_circle_norm s1) (rotate_cb s1) p, s1\<lparr>mtrand := g2\<rparr>))"

text \<open>The loop of \<^verbatim>\<open>get_random_points\<close>, with \<open>n\<close> rounds left.\<close>

fun get_random_points_loop ::
  "'g externals \<Rightarrow> circle_bound \<Rightarrow> nat \<Rightarrow> point list \<Rightarrow> 'g random_state
     \<Rightarrow> point list \<times> 'g random_state" where
  "get_random_points_loop E B 0 points s = (points, s)"
| "get_random_points_loop E B (Suc n) points s =
     (let (p, s1) = get_random_point E B s
      in get_random_points_loop E B n (points @ [p]) s1)"

definition get_random_points ::
  "'g externals \<Rightarrow> circle_bound \<Rightarrow> int \<Rightarrow> point list \<Rightarrow> 'g random_state
     \<Rightarrow> point list \<times> 'g random_state" where
  "get_random_points E B n_points points s =
     (let points1 = (if points \<noteq> [] then [] else points)
      in get_random_points_loop E B (nat n_points) points1 s)"

text \<open>
  \<^verbatim>\<open>get_weighted_random_point\<close> reads \<^verbatim>\<open>points[i]\<close> unchecked at the index the generator
  returns; an index past the end is \<open>None\<close> here.
\<close>

definition get_weighted_random_point ::
  "'g externals \<Rightarrow> circle_bound \<Rightarrow> point list \<Rightarrow> 'g random_state
     \<Rightarrow> (point \<times> 'g random_state) option" where
  "get_weighted_random_point E B points s =
     (let (p, s1) = get_random_point E B s;
          (i, g) = randInt E (length points) (mtrand s1)
      in if i < length points
         then Some (set_weight (weight (points ! i)) p, s1\<lparr>mtrand := g\<rparr>)
         else None)"

text \<open>
  The loop of \<^verbatim>\<open>get_weighted_random_points\<close>, with \<open>n\<close> rounds left: the weight set is
  the number \<^verbatim>\<open>mtrand.randInt(input_points.size())\<close> itself, converted to \<^verbatim>\<open>double\<close>.
\<close>

fun get_weighted_random_points_loop ::
  "'g externals \<Rightarrow> circle_bound \<Rightarrow> nat \<Rightarrow> point list \<Rightarrow> point list \<Rightarrow> 'g random_state
     \<Rightarrow> point list \<times> 'g random_state" where
  "get_weighted_random_points_loop E B 0 points input_points s = (points, s)"
| "get_weighted_random_points_loop E B (Suc n) points input_points s =
     (let (p, s1) = get_random_point E B s;
          (i, g) = randInt E (length input_points) (mtrand s1);
          p1 = set_weight (real i) p
      in get_weighted_random_points_loop E B n (points @ [p1]) input_points (s1\<lparr>mtrand := g\<rparr>))"

definition get_weighted_random_points ::
  "'g externals \<Rightarrow> circle_bound \<Rightarrow> int \<Rightarrow> point list \<Rightarrow> point list \<Rightarrow> 'g random_state
     \<Rightarrow> point list \<times> 'g random_state" where
  "get_weighted_random_points E B n_points points input_points s =
     (let points1 = (if points \<noteq> [] then [] else points)
      in get_weighted_random_points_loop E B (nat n_points) points1 input_points s)"

subsection \<open>The edge rule in the words of the specification\<close>

text \<open>
  Two predicates on a single edge, for stating what the loop of \<^verbatim>\<open>intersects\<close> does: the
  edge lies on the near side and its closest approach is farther than the cap's radius
  (\<open>edge_rejects\<close>), or it is within the radius and the crossing lies between the two
  end points of the edge (\<open>edge_confirms\<close>).
\<close>

definition edge_rejects :: "circle_bound \<Rightarrow> pixel \<Rightarrow> int \<Rightarrow> bool" where
  "edge_rejects B pix k =
     (let d = dot (axis B) (edge pix k)
      in d \<le> 0 \<and> d * d > height B * (2 - height B))"

definition edge_confirms :: "circle_bound \<Rightarrow> pixel \<Rightarrow> point list \<Rightarrow> int \<Rightarrow> bool" where
  "edge_confirms B pix vertices k =
     (let d = dot (axis B) (edge pix k); dir = cross (edge pix k) (axis B)
      in d \<le> 0 \<and> d * d \<le> height B * (2 - height B)
         \<and> dot dir (vertices ! nat k) < 0
         \<and> dot dir (vertices ! nat ((k + 1) mod 4)) > 0)"

text \<open>
  The per-edge part of \<^verbatim>\<open>intersects\<close> as the specification words it: an edge that cannot
  cross is passed over, and the answer is whether one of the four edges confirms a
  crossing.
\<close>

definition intersects_as_specified :: "circle_bound \<Rightarrow> pixel \<Rightarrow> point list \<Rightarrow> bool" where
  "intersects_as_specified B pix vertices =
     (edge_confirms B pix vertices 0 \<or> edge_confirms B pix vertices 1
      \<or> edge_confirms B pix vertices 2 \<or> edge_confirms B pix vertices 3)"

subsection \<open>Well-formed pixels\<close>

text \<open>
  What the spec's pixel, a spherical quadrilateral, gives the edge test. Edge \<open>k\<close> runs
  from vertex \<open>k\<close> to vertex \<open>k + 1\<close> (indices modulo 4); its direction is the unit normal
  of the great circle through the two vertices, on the side to which the vertices turn
  counter-clockwise (\<open>edge_fits\<close>). The quadrilateral is convex: every vertex is on the
  inner side of every edge.
\<close>

definition edge_fits :: "pixel \<Rightarrow> int \<Rightarrow> bool" where
  "edge_fits pix k =
     (let a = vertex pix k; b = vertex pix ((k + 1) mod 4); n = edge pix k
      in unit_point n \<and> dot n a = 0 \<and> dot n b = 0 \<and> dot (cross a b) n > 0)"

definition convex_quadrilateral :: "pixel \<Rightarrow> bool" where
  "convex_quadrilateral pix =
     (list_all (edge_fits pix) [0, 1, 2, 3]
      \<and> list_all (\<lambda>j. list_all (\<lambda>k. 0 \<le> dot (edge pix j) (vertex pix k)) [0, 1, 2, 3])
          [0, 1, 2, 3])"

text \<open>The vector \<open>c - d \<cdot> n\<close>, for the proofs about the edge test.\<close>

definition less_scaled :: "point \<Rightarrow> real \<Rightarrow> point \<Rightarrow> point" where
  "less_scaled c d n =
     \<lparr>px = px c - d * px n, py = py c - d * py n, pz = pz c - d * pz n, weight = 1\<rparr>"

subsection \<open>Concrete inputs\<close>

text \<open>
  A spherical quadrilateral with rational coordinates: four unit vertices, counter-clockwise
  seen from outside the sphere, and the unit inward normals of its four edges, edge \<open>k\<close>
  running from vertex \<open>k\<close> to vertex \<open>k + 1\<close>. A point is inside when it is on the inner
  side of all four edges. The parameter \<open>q\<close> is the point the pixel hands out for an
  index outside 0 to 3. The area is the spherical excess of the quadrilateral.
\<close>

definition quad_vertex :: "point \<Rightarrow> int \<Rightarrow> point" where
  "quad_vertex q k =
     (if k = 0 then point3 (- 3 / 5) 0 (4 / 5)
      else if k = 1 then point3 (3 / 5) 0 (4 / 5)
      else if k = 2 then point3 (12 / 37) (21 / 37) (28 / 37)
      else if k = 3 then point3 (- 12 / 37) (21 / 37) (28 / 37)
      else q)"

definition quad_edge :: "int \<Rightarrow> point" where
  "quad_edge k =
     (if k = 0 then point3 0 1 0
      else if k = 1 then point3 (- 28 / 37) (- 12 / 37) (21 / 37)
      else if k = 2 then point3 0 (- 4 / 5) (3 / 5)
      else point3 (28 / 37) (- 12 / 37) (21 / 37))"

definition quad_contains :: "point \<Rightarrow> bool" where
  "quad_contains p =
     (0 \<le> dot (quad_edge 0) p \<and> 0 \<le> dot (quad_edge 1) p
      \<and> 0 \<le> dot (quad_edge 2) p \<and> 0 \<le> dot (quad_edge 3) p)"

definition quad_pixel :: "point \<Rightarrow> pixel" where
  "quad_pixel q =
     Pixel (quad_vertex q) quad_edge quad_contains
       (2 * pi - 2 * arccos (- 12 / 37) - 2 * arccos (3 / 5)) []"

definition south_pole :: point where
  "south_pole = point3 0 0 (- 1)"

text \<open>
  Five bounds: the northern hemisphere; a cap of height 1/2 about the north pole; a cap
  of height 1/4 whose axis lies just outside edge 0 of the quadrilateral, so that the cap
  reaches across that edge without reaching a vertex; the bound whose complement that
  cap is; and a cap of height 1/10 a quarter of the sphere away from edge 0.
\<close>

definition hemisphere :: circle_bound where
  "hemisphere = circle_bound_of (point3 0 0 1) 1"

definition half_cap :: circle_bound where
  "half_cap = circle_bound_of (point3 0 0 1) (1 / 2)"

definition small_cap :: circle_bound where
  "small_cap = circle_bound_of (point3 0 (- 3 / 5) (4 / 5)) (1 / 4)"

definition big_cap :: circle_bound where
  "big_cap = circle_bound_of (point3 0 (3 / 5) (- 4 / 5)) (7 / 4)"

definition far_cap :: circle_bound where
  "far_cap = circle_bound_of (point3 0 (- 1) 0) (1 / 10)"

text \<open>
  The \<^verbatim>\<open>double\<close> nearest to 0.1, which is \<^verbatim>\<open>3602879701896397 / 2^55\<close>, and a bound of
  this height.
\<close>

definition tenth :: real where
  "tenth = 3602879701896397 / 36028797018963968"

definition tenth_cap :: circle_bound where
  "tenth_cap = circle_bound_of (point3 0 0 1) tenth"

text \<open>
  A generator whose every draw is 0, a rotation that leaves the point where it is, a
  bound that has not sampled yet, and a reference list of one point of weight 5/2.
\<close>

definition fixed_draws :: "unit externals" where
  "fixed_draws =
     \<lparr>seed = (\<lambda>g. g), rand = (\<lambda>n g. (0, g)), randInt = (\<lambda>n g. (0, g)),
      rotate_about = (\<lambda>a t p. p)\<rparr>"

definition fresh_state :: "unit random_state" where
  "fresh_state =
     \<lparr>initialized_random = False, rotate_cb = 0, great_circle_norm = point3 0 0 0,
      mtrand = ()\<rparr>"

definition reference_points :: "point list" where
  "reference_points = [\<lparr>px = 0, py = 0, pz = 1, weight = 5 / 2\<rparr>]"

section \<open>Properties\<close>

declare intersects_edges.simps [simp del]
declare may_intersect_loop.simps [simp del]
declare contains_vertices.simps [simp del]

lemmas concrete_defs =
  circle_bound_of_def point3_def dot_def cross_def contains_def is_empty_def

lemmas quad_defs =
  quad_pixel_def quad_vertex_def quad_edge_def quad_contains_def south_pole_def

subsection \<open>The loops, unrolled\<close>

lemma may_intersect_unfold:
  "may_intersect B pix =
     (contains B (vertex pix 4)
      \<or> intersects B pix [vertex pix 4, vertex pix 4, vertex pix 4, vertex pix 4])"
proof -
  have l4: "may_intersect_loop B pix vs 4 = intersects B pix vs" for vs
    by (subst may_intersect_loop.simps) simp
  have l3: "may_intersect_loop B pix vs 3 =
      (contains B (vertex pix 4) \<or> intersects B pix (vs @ [vertex pix 4]))" for vs
    by (subst may_intersect_loop.simps) (simp add: l4)
  have l2: "may_intersect_loop B pix vs 2 =
      (contains B (vertex pix 4) \<or> intersects B pix (vs @ [vertex pix 4, vertex pix 4]))" for vs
    by (subst may_intersect_loop.simps) (auto simp: l3)
  have l1: "may_intersect_loop B pix vs 1 =
      (contains B (vertex pix 4)
       \<or> intersects B pix (vs @ [vertex pix 4, vertex pix 4, vertex pix 4]))" for vs
    by (subst may_intersect_loop.simps) (auto simp: l2)
  show ?thesis
    unfolding may_intersect_def
    by (subst may_intersect_loop.simps) (auto simp: l1)
qed

lemma contains_vertices_unfold:
  "contains_vertices B pix 0 =
     (contains B (vertex pix 0) \<and> contains B (vertex pix 1)
      \<and> contains B (vertex pix 2) \<and> contains B (vertex pix 3))"
proof -
  have l4: "contains_vertices B pix 4 = True"
    by (subst contains_vertices.simps) simp
  have l3: "contains_vertices B pix 3 = contains B (vertex pix 3)"
    by (subst contains_vertices.simps) (simp add: l4)
  have l2: "contains_vertices B pix 2 = (contains B (vertex pix 2) \<and> contains B (vertex pix 3))"
    by (subst contains_vertices.simps) (simp add: l3)
  have l1: "contains_vertices B pix 1 =
      (contains B (vertex pix 1) \<and> contains B (vertex pix 2) \<and> contains B (vertex pix 3))"
    by (subst contains_vertices.simps) (simp add: l2)
  show ?thesis
    by (subst contains_vertices.simps) (simp add: l1)
qed

lemma intersects_edges_4: "intersects_edges B pix vs s 4 = False"
  by (subst intersects_edges.simps) simp

lemma intersects_edges_3:
  "intersects_edges B pix vs (height B * (2 - height B)) 3 = edge_confirms B pix vs 3"
  by (subst intersects_edges.simps)
    (auto simp: intersects_edges_4 edge_confirms_def Let_def)

lemma intersects_edges_2:
  "intersects_edges B pix vs (height B * (2 - height B)) 2 =
     (edge_confirms B pix vs 2 \<or> (\<not> edge_rejects B pix 2 \<and> edge_confirms B pix vs 3))"
  by (subst intersects_edges.simps)
    (auto simp: intersects_edges_3 edge_confirms_def edge_rejects_def Let_def)

lemma intersects_edges_1:
  "intersects_edges B pix vs (height B * (2 - height B)) 1 =
     (edge_confirms B pix vs 1 \<or> (\<not> edge_rejects B pix 1 \<and>
       (edge_confirms B pix vs 2 \<or> (\<not> edge_rejects B pix 2 \<and> edge_confirms B pix vs 3))))"
  by (subst intersects_edges.simps)
    (auto simp: intersects_edges_2 edge_confirms_def edge_rejects_def Let_def)

lemma intersects_edges_0:
  "intersects_edges B pix vs (height B * (2 - height B)) 0 =
     (edge_confirms B pix vs 0 \<or> (\<not> edge_rejects B pix 0 \<and>
       (edge_confirms B pix vs 1 \<or> (\<not> edge_rejects B pix 1 \<and>
         (edge_confirms B pix vs 2 \<or> (\<not> edge_rejects B pix 2 \<and> edge_confirms B pix vs 3))))))"
  by (subst intersects_edges.simps)
    (auto simp: intersects_edges_1 edge_confirms_def edge_rejects_def Let_def)

lemma edge_rejects_not_confirms:
  "edge_rejects B pix k \<Longrightarrow> \<not> edge_confirms B pix vs k"
  by (simp add: edge_rejects_def edge_confirms_def Let_def)

text \<open>
  With the same point in all four places of \<^verbatim>\<open>vertices\<close> no edge can confirm a crossing:
  \<open>dir \<cdot> q\<close> would have to be negative and positive at once.
\<close>

lemma same_vertex_never_confirms:
  "\<not> edge_confirms B pix [q, q, q, q] 0" "\<not> edge_confirms B pix [q, q, q, q] 1"
  "\<not> edge_confirms B pix [q, q, q, q] 2" "\<not> edge_confirms B pix [q, q, q, q] 3"
  by (simp_all add: edge_confirms_def Let_def)

text \<open>
  What \<^verbatim>\<open>may_intersect\<close> computes, with the loops gone: it looks at \<^verbatim>\<open>vertex(4)\<close> and at
  whether the pixel contains the axis, and at nothing else.
\<close>

lemma may_intersect_effective:
  "may_intersect B pix =
     (contains B (vertex pix 4) \<or> (0 \<le> height B \<and> height B < 1 \<and> pcontains pix (axis B)))"
  by (auto simp: may_intersect_unfold intersects_def is_empty_def intersects_edges_0
      same_vertex_never_confirms)

subsection \<open>The concrete quadrilateral\<close>

lemma quad_well_formed:
  "unit_point (quad_vertex south_pole 0) \<and> unit_point (quad_vertex south_pole 1)
   \<and> unit_point (quad_vertex south_pole 2) \<and> unit_point (quad_vertex south_pole 3)
   \<and> unit_point (quad_vertex south_pole 4)
   \<and> unit_point (quad_edge 0) \<and> unit_point (quad_edge 1)
   \<and> unit_point (quad_edge 2) \<and> unit_point (quad_edge 3)
   \<and> quad_contains (quad_vertex south_pole 0) \<and> quad_contains (quad_vertex south_pole 1)
   \<and> quad_contains (quad_vertex south_pole 2) \<and> quad_contains (quad_vertex south_pole 3)
   \<and> dot (quad_edge 0) (quad_vertex south_pole 0) = 0
   \<and> dot (quad_edge 0) (quad_vertex south_pole 1) = 0
   \<and> dot (quad_edge 1) (quad_vertex south_pole 1) = 0
   \<and> dot (quad_edge 1) (quad_vertex south_pole 2) = 0
   \<and> dot (quad_edge 2) (quad_vertex south_pole 2) = 0
   \<and> dot (quad_edge 2) (quad_vertex south_pole 3) = 0
   \<and> dot (quad_edge 3) (quad_vertex south_pole 3) = 0
   \<and> dot (quad_edge 3) (quad_vertex south_pole 0) = 0"
  by (simp add: quad_defs unit_point_def point3_def dot_def)

lemma quad_vertices_unit: "unit_point (quad_vertex south_pole k)"
  by (simp add: quad_defs unit_point_def point3_def dot_def)

lemma small_cap_misses:
  "\<not> may_intersect small_cap (quad_pixel south_pole)"
  by (simp add: may_intersect_effective small_cap_def quad_defs concrete_defs)

lemma small_cap_crosses:
  "intersects small_cap (quad_pixel south_pole)
     (map (vertex (quad_pixel south_pole)) [0, 1, 2, 3])"
proof -
  have h: "0 \<le> height small_cap" "height small_cap < 1"
    by (simp_all add: small_cap_def circle_bound_of_def)
  have a: "\<not> pcontains (quad_pixel south_pole) (axis small_cap)"
    by (simp add: small_cap_def quad_defs concrete_defs)
  have "edge_confirms small_cap (quad_pixel south_pole)
      (map (vertex (quad_pixel south_pole)) [0, 1, 2, 3]) 0"
    by (simp add: edge_confirms_def small_cap_def quad_defs concrete_defs)
  then show ?thesis
    using h a by (simp add: intersects_def is_empty_def intersects_edges_0)
qed

subsection \<open>may_intersect\<close>

text \<open>
  C1. The specification has \<^verbatim>\<open>may_intersect(pixel)\<close> answer true when one of the vertices
  0 to 3 of the pixel is contained, and otherwise the answer of \<^verbatim>\<open>intersects\<close> on these
  four vertices. The source fetches \<^verbatim>\<open>pix.vertex(4)\<close> in every round, where
  \<^verbatim>\<open>contains(const pixel&)\<close> fetches \<^verbatim>\<open>pix.vertex(k)\<close>. On the quadrilateral whose
  out-of-range vertex is the south pole: all four vertices lie in the northern hemisphere,
  and \<^verbatim>\<open>may_intersect\<close> of the hemisphere is false; no vertex lies in the small cap,
  \<^verbatim>\<open>intersects\<close> on the four vertices is true, and \<^verbatim>\<open>may_intersect\<close> of the small cap is
  false.
\<close>

theorem may_intersect_reads_vertex_4:
  "contains hemisphere (vertex (quad_pixel south_pole) 0)
   \<and> contains hemisphere (vertex (quad_pixel south_pole) 1)
   \<and> contains hemisphere (vertex (quad_pixel south_pole) 2)
   \<and> contains hemisphere (vertex (quad_pixel south_pole) 3)
   \<and> \<not> may_intersect hemisphere (quad_pixel south_pole)
   \<and> \<not> contains small_cap (vertex (quad_pixel south_pole) 0)
   \<and> \<not> contains small_cap (vertex (quad_pixel south_pole) 1)
   \<and> \<not> contains small_cap (vertex (quad_pixel south_pole) 2)
   \<and> \<not> contains small_cap (vertex (quad_pixel south_pole) 3)
   \<and> intersects small_cap (quad_pixel south_pole)
        (map (vertex (quad_pixel south_pole)) [0, 1, 2, 3])
   \<and> \<not> may_intersect small_cap (quad_pixel south_pole)"
proof -
  have v: "contains hemisphere (vertex (quad_pixel south_pole) 0)
     \<and> contains hemisphere (vertex (quad_pixel south_pole) 1)
     \<and> contains hemisphere (vertex (quad_pixel south_pole) 2)
     \<and> contains hemisphere (vertex (quad_pixel south_pole) 3)"
    by (simp add: hemisphere_def quad_defs concrete_defs)
  have m: "\<not> may_intersect hemisphere (quad_pixel south_pole)"
    by (simp add: may_intersect_effective hemisphere_def quad_defs concrete_defs)
  have w: "\<not> contains small_cap (vertex (quad_pixel south_pole) 0)
     \<and> \<not> contains small_cap (vertex (quad_pixel south_pole) 1)
     \<and> \<not> contains small_cap (vertex (quad_pixel south_pole) 2)
     \<and> \<not> contains small_cap (vertex (quad_pixel south_pole) 3)"
    by (simp add: small_cap_def quad_defs concrete_defs)
  show ?thesis
    using v m w small_cap_crosses small_cap_misses by simp
qed

subsection \<open>Vectors\<close>

lemma dot_less_scaled: "dot m (less_scaled c d n) = dot m c - d * dot m n"
  by (simp add: dot_def less_scaled_def algebra_simps)

lemma dot_commute: "dot a b = dot b a"
  by (simp add: dot_def algebra_simps)

lemma dot_self_nonneg: "0 \<le> dot a a"
  by (simp add: dot_def)

lemma cauchy_schwarz: "(dot u x)\<^sup>2 \<le> dot u u * dot x x"
proof -
  have "dot u u * dot x x - (dot u x)\<^sup>2 = dot (cross u x) (cross u x)"
    by (simp add: dot_def cross_def power2_eq_square algebra_simps)
  then show ?thesis
    using dot_self_nonneg [of "cross u x"] by linarith
qed

text \<open>
  Any vector \<open>c\<close>, scaled by \<open>|a \<times> b|\<^sup>2\<close>, in terms of \<open>a\<close>, \<open>b\<close> and \<open>a \<times> b\<close>.
\<close>

lemma span_identity:
  "dot (cross a b) (cross a b) * dot m c =
     dot c (cross a b) * dot m (cross a b)
     + dot (cross c b) (cross a b) * dot m a
     + dot (cross a c) (cross a b) * dot m b"
  by (simp add: dot_def cross_def algebra_simps)

lemma normal_parallel:
  assumes "dot n a = 0" and "dot n b = 0"
  shows "dot (cross a b) (cross a b) * dot n v = dot n (cross a b) * dot (cross a b) v"
proof -
  have "dot (cross a b) (cross a b) * dot n v - dot n (cross a b) * dot (cross a b) v =
      dot n b * (dot (cross a b) (cross a v)) - dot n a * dot (cross a b) (cross b v)"
    by (simp add: dot_def cross_def algebra_simps)
  then show ?thesis using assms by simp
qed

lemma triple_product: "dot (cross n c) a = dot n (cross c a)"
  by (simp add: dot_def cross_def algebra_simps)

lemma cross_swap: "dot w (cross c a) = - dot (cross a c) w"
  by (simp add: dot_def cross_def algebra_simps)

lemma dot_less_scaled_left: "dot (less_scaled c d n) m = dot c m - d * dot n m"
  by (simp add: dot_def less_scaled_def algebra_simps)

text \<open>
  The foot of the axis \<open>c\<close> on the great circle of an edge, \<open>c - (c \<cdot> n) n\<close>. When the
  two tests on \<open>dir = n \<times> c\<close> hold, the foot is a combination of the two end points of the
  edge with positive factors, so it lies on the inner side of every edge that has both
  end points on its inner side.
\<close>

lemma foot_inside:
  assumes un: "dot n n = 1"
    and na: "dot n a = 0" and nb: "dot n b = 0"
    and mu: "dot (cross a b) n > 0"
    and t1: "dot (cross n c) a < 0" and t2: "dot (cross n c) b > 0"
    and ma: "0 \<le> dot m a" and mb: "0 \<le> dot m b"
  shows "0 \<le> dot m (less_scaled c (dot c n) n)"
proof -
  define w where "w = cross a b"
  define W where "W = dot w w"
  define \<mu> where "\<mu> = dot n w"
  define A where "A = dot (cross c b) w"
  define B where "B = dot (cross a c) w"
  have par: "W * dot n v = \<mu> * dot w v" for v
    unfolding W_def \<mu>_def w_def by (rule normal_parallel [OF na nb])
  have \<mu>: "0 < \<mu>"
    using mu by (simp add: \<mu>_def w_def dot_commute [of n "cross a b"])
  have wn: "dot w v = dot v w" for v
    by (rule dot_commute)
  have W: "W = \<mu> * \<mu>"
    using par [of n] un by (simp only: wn [of n] \<mu>_def [symmetric] mult_1_right)
  then have Wpos: "0 < W"
    using \<mu> by simp
  have "W * dot (cross n c) a = W * dot n (cross c a)"
    by (simp only: triple_product)
  also have "\<dots> = \<mu> * dot w (cross c a)"
    by (rule par)
  also have "\<dots> = - (\<mu> * B)"
    by (simp only: cross_swap B_def mult_minus_right)
  finally have "W * dot (cross n c) a = - (\<mu> * B)" .
  then have "\<mu> * B * 1 = W * (- dot (cross n c) a)"
    by simp
  moreover have "0 < W * (- dot (cross n c) a)"
    using Wpos t1 by (intro mult_pos_pos) simp_all
  ultimately have "0 < \<mu> * B" by simp
  then have Bpos: "0 < B"
    using \<mu> by (simp add: zero_less_mult_iff)
  have "W * dot (cross n c) b = W * dot n (cross c b)"
    by (simp only: triple_product)
  also have "\<dots> = \<mu> * dot w (cross c b)"
    by (rule par)
  also have "\<dots> = \<mu> * A"
    by (simp only: A_def wn)
  finally have "W * dot (cross n c) b = \<mu> * A" .
  moreover have "0 < W * dot (cross n c) b"
    using Wpos t2 by (intro mult_pos_pos)
  ultimately have "0 < \<mu> * A" by simp
  then have Apos: "0 < A"
    using \<mu> by (simp add: zero_less_mult_iff)
  have "W * (W * (dot c n * dot m n)) = (W * dot n c) * (W * dot n m)"
    by (simp add: dot_commute [of c n] dot_commute [of m n] algebra_simps)
  also have "\<dots> = (\<mu> * dot w c) * (\<mu> * dot w m)"
    by (simp only: par)
  also have "\<dots> = W * (dot c w * dot m w)"
    by (simp add: W dot_commute [of w c] dot_commute [of w m] algebra_simps)
  finally have dn: "W * (dot c n * dot m n) = dot c w * dot m w"
    using Wpos by simp
  have "W * dot m (less_scaled c (dot c n) n) = W * dot m c - W * (dot c n * dot m n)"
    by (simp add: dot_less_scaled algebra_simps)
  also have "\<dots> = W * dot m c - dot c w * dot m w"
    by (simp only: dn)
  also have "\<dots> = A * dot m a + B * dot m b"
    unfolding W_def A_def B_def w_def using span_identity [of a b m c] by simp
  finally have "W * dot m (less_scaled c (dot c n) n) = A * dot m a + B * dot m b" .
  moreover have "0 \<le> A * dot m a + B * dot m b"
    using Apos Bpos ma mb by (intro add_nonneg_nonneg mult_nonneg_nonneg) simp_all
  ultimately have "0 \<le> W * dot m (less_scaled c (dot c n) n)"
    by simp
  then show ?thesis
    using Wpos by (simp add: zero_le_mult_iff)
qed

text \<open>
  An edge \<open>m\<close> with the axis farther outside than the cap's radius, and an edge \<open>n\<close> whose
  great circle the cap reaches with the foot on the inner side of \<open>m\<close>: both cannot be.
\<close>

lemma rejected_edge_excludes_crossing:
  assumes uc: "dot c c = 1" and um: "dot m m = 1" and un: "dot n n = 1"
    and dj: "dot c m \<le> 0" and rej: "dot c m * dot c m > s"
    and dk: "dot c n * dot c n \<le> s" and s1: "s < 1"
    and inside: "0 \<le> dot m (less_scaled c (dot c n) n)"
  shows False
proof -
  define x where "x = less_scaled c (dot c n) n"
  define u where "u = less_scaled c (dot c m) m"
  define dj where "dj = dot c m"
  define dk where "dk = dot c n"
  have xx: "dot x x = 1 - dk * dk"
    using uc un by (simp add: x_def dk_def dot_less_scaled dot_less_scaled_left
        dot_commute [of n c] algebra_simps)
  have uu: "dot u u = 1 - dj * dj"
    using uc um by (simp add: u_def dj_def dot_less_scaled dot_less_scaled_left
        dot_commute [of m c] algebra_simps)
  have cx: "dot c x = 1 - dk * dk"
    using uc by (simp add: x_def dk_def dot_less_scaled)
  have ux: "dot u x = dot c x - dj * dot m x"
    by (simp add: u_def dj_def dot_less_scaled_left)
  have mx: "0 \<le> dot m x"
    using inside by (simp add: x_def)
  have "dj * dot m x \<le> 0"
    using dj mx by (simp add: dj_def mult_nonpos_nonneg)
  then have lo: "1 - dk * dk \<le> dot u x"
    using ux cx by simp
  have pos: "0 < 1 - dk * dk"
    using dk s1 by (simp add: dk_def)
  have "(1 - dk * dk)\<^sup>2 \<le> (dot u x)\<^sup>2"
    using lo pos by (intro power_mono) simp_all
  also have "\<dots> \<le> dot u u * dot x x"
    by (rule cauchy_schwarz)
  also have "\<dots> = (1 - dj * dj) * (1 - dk * dk)"
    by (simp add: uu xx)
  finally have "(1 - dk * dk) * (1 - dk * dk) \<le> (1 - dj * dj) * (1 - dk * dk)"
    by (simp add: power2_eq_square)
  then have "1 - dk * dk \<le> 1 - dj * dj"
    using pos by simp
  then show False
    using rej dk by (simp add: dj_def dk_def)
qed

subsection \<open>The edge loop of intersects\<close>

text \<open>
  What the loop does, edge by edge, for a bound that is not empty, of height below 1,
  whose axis the pixel does not contain: an edge that rejects ends the function with
  false at once, an edge that confirms ends it with true.
\<close>

lemma intersects_by_edge_order:
  assumes "0 \<le> height B" and "height B < 1" and "\<not> pcontains pix (axis B)"
  shows "intersects B pix vs =
     (edge_confirms B pix vs 0 \<or> (\<not> edge_rejects B pix 0 \<and>
       (edge_confirms B pix vs 1 \<or> (\<not> edge_rejects B pix 1 \<and>
         (edge_confirms B pix vs 2 \<or> (\<not> edge_rejects B pix 2 \<and>
           edge_confirms B pix vs 3))))))"
  using assms by (simp add: intersects_def is_empty_def intersects_edges_0)

lemma own_vertices_nth:
  assumes "k \<in> {0, 1, 2, 3}"
  shows "map (vertex pix) [0, 1, 2, 3] ! nat k = vertex pix k"
    and "map (vertex pix) [0, 1, 2, 3] ! nat ((k + 1) mod 4) = vertex pix ((k + 1) mod 4)"
    and "(k + 1) mod 4 \<in> {0, 1, 2, 3}"
  using assms by auto

lemma rejecting_edge_bars_confirming:
  assumes cq: "convex_quadrilateral pix"
    and ua: "unit_point (axis B)"
    and h: "height B < 1"
    and j: "j \<in> {0, 1, 2, 3}" and k: "k \<in> {0, 1, 2, 3}"
    and rej: "edge_rejects B pix j"
  shows "\<not> edge_confirms B pix (map (vertex pix) [0, 1, 2, 3]) k"
proof
  assume conf: "edge_confirms B pix (map (vertex pix) [0, 1, 2, 3]) k"
  define c where "c = axis B"
  define m where "m = edge pix j"
  define n where "n = edge pix k"
  define a where "a = vertex pix k"
  define b where "b = vertex pix ((k + 1) mod 4)"
  define s where "s = height B * (2 - height B)"
  have fits_k: "edge_fits pix k" and fits_j: "edge_fits pix j"
    using cq j k by (auto simp: convex_quadrilateral_def)
  have k': "(k + 1) mod 4 \<in> {0, 1, 2, 3}"
    using k by (rule own_vertices_nth)
  have ma: "0 \<le> dot m a"
    using cq j k by (auto simp: convex_quadrilateral_def m_def a_def)
  have mb: "0 \<le> dot m b"
    using cq j k' unfolding m_def b_def
    by (auto simp: convex_quadrilateral_def)
  have un: "dot n n = 1" and na: "dot n a = 0" and nb: "dot n b = 0"
    and mu: "dot (cross a b) n > 0"
    using fits_k by (simp_all add: edge_fits_def Let_def unit_point_def n_def a_def b_def)
  have um: "dot m m = 1"
    using fits_j by (simp add: edge_fits_def Let_def unit_point_def m_def)
  have uc: "dot c c = 1"
    using ua by (simp add: unit_point_def c_def)
  have dj: "dot c m \<le> 0" and rj: "dot c m * dot c m > s"
    using rej by (simp_all add: edge_rejects_def Let_def c_def m_def s_def)
  have dk: "dot c n * dot c n \<le> s"
    and t1: "dot (cross n c) a < 0" and t2: "dot (cross n c) b > 0"
    using conf own_vertices_nth(1,2) [OF k, of pix]
    by (simp_all add: edge_confirms_def Let_def c_def n_def a_def b_def s_def)
  have "s = 1 - (1 - height B) * (1 - height B)"
    by (simp add: s_def algebra_simps)
  moreover have "0 < (1 - height B) * (1 - height B)"
    using h by simp
  ultimately have s1: "s < 1" by simp
  have "0 \<le> dot m (less_scaled c (dot c n) n)"
    using un na nb mu t1 t2 ma mb by (rule foot_inside)
  with uc um un dj rj dk s1 show False
    by (rule rejected_edge_excludes_crossing)
qed

lemma quad_convex: "convex_quadrilateral (quad_pixel south_pole)"
  by (simp add: convex_quadrilateral_def edge_fits_def quad_defs unit_point_def
      point3_def dot_def cross_def)

text \<open>
  On the list that \<^verbatim>\<open>may_intersect\<close> passes, four times the same point, the source and
  the rule of the specification agree for every pixel: no edge confirms.
\<close>

lemma intersects_as_specified_on_fetched:
  assumes "0 \<le> height B" and "height B < 1" and "\<not> pcontains pix (axis B)"
  shows "intersects B pix [q, q, q, q] = intersects_as_specified B pix [q, q, q, q]"
  using assms
  by (simp add: intersects_def is_empty_def intersects_edges_0 intersects_as_specified_def
      same_vertex_never_confirms)

text \<open>
  C2. For a bound that is not empty, of height below 1, whose axis the pixel does not
  contain, \<^verbatim>\<open>intersects\<close> on the four vertices of the pixel answers as if an edge with
  \<open>dot \<le> 0\<close> and \<open>dot\<^sup>2 > height \<cdot> (2 - height)\<close> were passed over and the remaining edges
  examined: it is false only if none of the four edges confirms a crossing, and true if
  an edge with \<open>dot \<le> 0\<close> and \<open>dot\<^sup>2 \<le> height \<cdot> (2 - height)\<close> has
  \<open>dir \<cdot> vertex[k] < 0\<close> and \<open>dir \<cdot> vertex[(k + 1) mod 4] > 0\<close>. The source returns false
  at the first edge that rejects; on a pixel that is a convex quadrilateral, with a unit
  axis, no edge confirms once an edge rejects, so the answer is the same.
\<close>

theorem intersects_as_specified_on_quadrilaterals:
  assumes "0 \<le> height B" and "height B < 1" and "\<not> pcontains pix (axis B)"
    and "unit_point (axis B)" and "convex_quadrilateral pix"
  shows "intersects B pix (map (vertex pix) [0, 1, 2, 3]) =
    intersects_as_specified B pix (map (vertex pix) [0, 1, 2, 3])"
proof -
  have bar: "edge_rejects B pix j \<Longrightarrow> \<not> edge_confirms B pix (map (vertex pix) [0, 1, 2, 3]) k"
    if "j \<in> {0, 1, 2, 3}" "k \<in> {0, 1, 2, 3}" for j k
    using assms(5,4,2) that by (rule rejecting_edge_bars_confirming)
  have "intersects B pix (map (vertex pix) [0, 1, 2, 3]) =
     (edge_confirms B pix (map (vertex pix) [0, 1, 2, 3]) 0 \<or> (\<not> edge_rejects B pix 0 \<and>
       (edge_confirms B pix (map (vertex pix) [0, 1, 2, 3]) 1 \<or> (\<not> edge_rejects B pix 1 \<and>
         (edge_confirms B pix (map (vertex pix) [0, 1, 2, 3]) 2 \<or> (\<not> edge_rejects B pix 2 \<and>
           edge_confirms B pix (map (vertex pix) [0, 1, 2, 3]) 3))))))"
    using assms(1-3) by (simp only: intersects_def is_empty_def intersects_edges_0) simp
  also have "\<dots> = intersects_as_specified B pix (map (vertex pix) [0, 1, 2, 3])"
    unfolding intersects_as_specified_def
    using bar [of 0 1] bar [of 0 2] bar [of 0 3] bar [of 1 2] bar [of 1 3] bar [of 2 3]
    by blast
  finally show ?thesis .
qed

theorem intersects_as_specified_on_quadrilaterals_witness:
  "0 \<le> height small_cap \<and> height small_cap < 1
   \<and> \<not> pcontains (quad_pixel south_pole) (axis small_cap)
   \<and> unit_point (axis small_cap)
   \<and> convex_quadrilateral (quad_pixel south_pole)
   \<and> intersects small_cap (quad_pixel south_pole)
        (map (vertex (quad_pixel south_pole)) [0, 1, 2, 3])
   \<and> intersects_as_specified small_cap (quad_pixel south_pole)
        (map (vertex (quad_pixel south_pole)) [0, 1, 2, 3])
   \<and> 0 \<le> height far_cap \<and> height far_cap < 1
   \<and> \<not> pcontains (quad_pixel south_pole) (axis far_cap)
   \<and> unit_point (axis far_cap)
   \<and> edge_rejects far_cap (quad_pixel south_pole) 0
   \<and> \<not> intersects far_cap (quad_pixel south_pole)
        (map (vertex (quad_pixel south_pole)) [0, 1, 2, 3])
   \<and> \<not> intersects_as_specified far_cap (quad_pixel south_pole)
        (map (vertex (quad_pixel south_pole)) [0, 1, 2, 3])"
proof -
  have s: "0 \<le> height small_cap" "height small_cap < 1"
    "\<not> pcontains (quad_pixel south_pole) (axis small_cap)" "unit_point (axis small_cap)"
    by (simp_all add: small_cap_def quad_defs unit_point_def concrete_defs)
  have f: "0 \<le> height far_cap" "height far_cap < 1"
    "\<not> pcontains (quad_pixel south_pole) (axis far_cap)" "unit_point (axis far_cap)"
    by (simp_all add: far_cap_def quad_defs unit_point_def concrete_defs)
  have r: "edge_rejects far_cap (quad_pixel south_pole) 0"
    by (simp add: edge_rejects_def far_cap_def quad_defs concrete_defs)
  have n: "\<not> intersects far_cap (quad_pixel south_pole)
      (map (vertex (quad_pixel south_pole)) [0, 1, 2, 3])"
    using f(1-3) r edge_rejects_not_confirms [OF r]
    by (simp add: intersects_def is_empty_def intersects_edges_0)
  show ?thesis
    using intersects_as_specified_on_quadrilaterals [OF s quad_convex]
      intersects_as_specified_on_quadrilaterals [OF f quad_convex]
      s f r n small_cap_crosses quad_convex
    by simp
qed

subsection \<open>Weighted sampling\<close>

text \<open>
  Whatever the generator and the reference points are, every weight the batch form
  assigns is one of the numbers 0, 1, 2, ...: the index drawn, not a weight looked up.
\<close>

lemma batch_weights_are_indices:
  assumes "\<forall>p \<in> set points. weight p \<in> \<nat>"
  shows "\<forall>p \<in> set (fst (get_weighted_random_points_loop E B n points input_points s)).
           weight p \<in> \<nat>"
  using assms
proof (induction n arbitrary: points s)
  case 0
  then show ?case by simp
next
  case (Suc n)
  show ?case
  proof (cases "get_random_point E B s")
    case (Pair p s1)
    show ?thesis
    proof (cases "randInt E (length input_points) (mtrand s1)")
      case (Pair i g)
      have "\<forall>q \<in> set (points @ [set_weight (real i) p]). weight q \<in> \<nat>"
        using Suc.prems by (auto simp: set_weight_def)
      from Suc.IH [OF this] show ?thesis
        using \<open>get_random_point E B s = (p, s1)\<close> Pair by simp
    qed
  qed
qed

text \<open>
  C3. The specification has each point of \<^verbatim>\<open>get_weighted_random_points\<close> carry the weight
  of a reference point drawn at random, as \<^verbatim>\<open>get_weighted_random_point\<close> does. The source
  of the batch form passes the drawn index itself to \<^verbatim>\<open>set_weight\<close>. With one reference
  point of weight 5/2 and a generator that draws 0, the one point of the batch has
  weight 0, and the single form gives weight 5/2.
\<close>

theorem batch_weight_is_the_index:
  "map weight reference_points = [5 / 2]
   \<and> map weight (fst (get_weighted_random_points fixed_draws hemisphere 1 [] reference_points
        fresh_state)) = [0]
   \<and> map_option (\<lambda>r. weight (fst r))
        (get_weighted_random_point fixed_draws hemisphere reference_points fresh_state)
      = Some (5 / 2)"
  by (simp add: reference_points_def get_weighted_random_points_def
      get_weighted_random_point_def get_random_point_def fixed_draws_def fresh_state_def
      initialize_random_def set_weight_def Let_def)

subsection \<open>The empty region\<close>

lemma dot_le_one:
  assumes "dot a a \<le> 1" and "dot p p \<le> 1"
  shows "dot a p \<le> 1"
proof -
  have "0 \<le> (px a - px p)\<^sup>2 + (py a - py p)\<^sup>2 + (pz a - pz p)\<^sup>2"
    by simp
  also have "\<dots> = dot a a + dot p p - 2 * dot a p"
    by (simp add: dot_def power2_eq_square algebra_simps)
  finally show ?thesis
    using assms by linarith
qed

lemma empty_contains_no_point:
  assumes "height B < 0" and "dot (axis B) (axis B) \<le> 1" and "dot p p \<le> 1"
  shows "\<not> contains B p"
  using dot_le_one [OF assms(2,3)] assms(1) by (simp add: contains_def)

text \<open>
  C4. A bound of negative height is the empty region, the bound of the default
  constructor among them: its area and its size are 0, it contains no unit point, and
  \<^verbatim>\<open>may_intersect\<close> and \<^verbatim>\<open>intersects\<close> are false for every pixel. The axis is a point of
  the unit sphere, or the zero vector (its length is at most 1), and the points the pixel
  hands out are unit points, as the data model has them. All the queries are total
  functions here and \<^verbatim>\<open>intersects\<close> returns before it reads \<^verbatim>\<open>vertices\<close>, so there is no
  error to return.
\<close>

theorem empty_bound_queries:
  assumes "height B < 0"
    and "dot (axis B) (axis B) \<le> 1"
    and "unit_point p"
    and "\<forall>k. unit_point (vertex pix k)"
  shows "is_empty B \<and> area B = 0 \<and> size_cb B = 0 \<and> \<not> contains B p
    \<and> \<not> may_intersect B pix \<and> \<not> intersects B pix vertices"
proof -
  have e: "is_empty B"
    using assms(1) by (simp add: is_empty_def)
  have "dot p p \<le> 1"
    using assms(3) by (simp add: unit_point_def)
  then have c: "\<not> contains B p"
    using assms(1,2) by (rule empty_contains_no_point [rotated 2])
  have i: "\<not> intersects B pix vs" for vs
    using e by (simp add: intersects_def)
  have "dot (vertex pix 4) (vertex pix 4) \<le> 1"
    using assms(4) by (simp add: unit_point_def)
  then have "\<not> contains B (vertex pix 4)"
    using assms(1,2) by (rule empty_contains_no_point [rotated 2])
  then have m: "\<not> may_intersect B pix"
    by (simp add: may_intersect_unfold i)
  show ?thesis
    using e c i m by (simp add: area_def size_cb_def)
qed

theorem empty_bound_queries_witness:
  "height (circle_bound_default (point3 0 0 1)) < 0
   \<and> dot (point3 0 0 1) (point3 0 0 1) \<le> 1
   \<and> unit_point (point3 (3 / 5) 0 (4 / 5))
   \<and> area (circle_bound_default (point3 0 0 1)) = 0
   \<and> size_cb (circle_bound_default (point3 0 0 1)) = 0
   \<and> \<not> contains (circle_bound_default (point3 0 0 1)) (point3 (3 / 5) 0 (4 / 5))
   \<and> \<not> may_intersect (circle_bound_default (point3 0 0 1)) (quad_pixel south_pole)
   \<and> \<not> intersects (circle_bound_default (point3 0 0 1)) (quad_pixel south_pole)
        (map (vertex (quad_pixel south_pole)) [0, 1, 2, 3])"
proof -
  have v: "\<forall>k. unit_point (vertex (quad_pixel south_pole) k)"
    using quad_vertices_unit by (simp add: quad_pixel_def)
  have h: "height (circle_bound_default (point3 0 0 1)) < 0"
    by (simp add: circle_bound_default_def)
  have a: "dot (axis (circle_bound_default (point3 0 0 1)))
      (axis (circle_bound_default (point3 0 0 1))) \<le> 1"
    by (simp add: circle_bound_default_def point3_def dot_def)
  have u: "unit_point (point3 (3 / 5) 0 (4 / 5))"
    by (simp add: unit_point_def point3_def dot_def)
  show ?thesis
    using empty_bound_queries [OF h a u v,
        of "map (vertex (quad_pixel south_pole)) [0, 1, 2, 3]"] h a u
    by (simp add: circle_bound_default_def)
qed

subsection \<open>Point containment\<close>

text \<open>
  C5. \<^verbatim>\<open>contains(p)\<close> is true exactly when \<open>1 - axis \<cdot> p \<le> height\<close>, the boundary
  included. For the axis \<open>(0, 0, 1)\<close> and height 1 the point \<open>(0, 0, 1)\<close> is contained,
  \<open>(0, 0, -1)\<close> is not, and the boundary point \<open>(1, 0, 0)\<close> is.
\<close>

theorem contains_point_iff:
  "(contains B p \<longleftrightarrow> 1 - dot (axis B) p \<le> height B)
   \<and> contains (circle_bound_of (point3 0 0 1) 1) (point3 0 0 1)
   \<and> \<not> contains (circle_bound_of (point3 0 0 1) 1) (point3 0 0 (- 1))
   \<and> contains (circle_bound_of (point3 0 0 1) 1) (point3 1 0 0)"
  by (simp add: contains_def circle_bound_of_def point3_def dot_def)

subsection \<open>Complement and area\<close>




subsection \<open>The shortcuts of intersects\<close>

text \<open>
  C7. \<^verbatim>\<open>intersects\<close> tests its shortcuts in this order: a height of 1 or more gives
  false; otherwise an empty bound gives false; otherwise a pixel that contains the axis
  gives true; only then the four edges decide. The first two come before the third: a
  hemisphere and an empty bound give false also when the pixel contains the axis.
\<close>

theorem intersects_shortcut_order:
  "(height B \<ge> 1 \<longrightarrow> intersects B pix vertices = False)
   \<and> (\<not> height B \<ge> 1 \<and> is_empty B \<longrightarrow> intersects B pix vertices = False)
   \<and> (\<not> height B \<ge> 1 \<and> \<not> is_empty B \<and> pcontains pix (axis B)
        \<longrightarrow> intersects B pix vertices = True)
   \<and> (\<not> height B \<ge> 1 \<and> \<not> is_empty B \<and> \<not> pcontains pix (axis B)
        \<longrightarrow> intersects B pix vertices =
            intersects_edges B pix vertices (height B * (2 - height B)) 0)"
  by (simp add: intersects_def)

theorem intersects_shortcut_order_witness:
  "height hemisphere \<ge> 1 \<and> pcontains (quad_pixel south_pole) (axis hemisphere)
   \<and> intersects hemisphere (quad_pixel south_pole)
        (map (vertex (quad_pixel south_pole)) [0, 1, 2, 3]) = False
   \<and> is_empty (circle_bound_default (point3 0 0 1))
   \<and> pcontains (quad_pixel south_pole) (axis (circle_bound_default (point3 0 0 1)))
   \<and> intersects (circle_bound_default (point3 0 0 1)) (quad_pixel south_pole)
        (map (vertex (quad_pixel south_pole)) [0, 1, 2, 3]) = False
   \<and> \<not> height half_cap \<ge> 1 \<and> \<not> is_empty half_cap
   \<and> pcontains (quad_pixel south_pole) (axis half_cap)
   \<and> intersects half_cap (quad_pixel south_pole)
        (map (vertex (quad_pixel south_pole)) [0, 1, 2, 3]) = True
   \<and> \<not> height small_cap \<ge> 1 \<and> \<not> is_empty small_cap
   \<and> \<not> pcontains (quad_pixel south_pole) (axis small_cap)
   \<and> intersects small_cap (quad_pixel south_pole)
        (map (vertex (quad_pixel south_pole)) [0, 1, 2, 3])
      = intersects_edges small_cap (quad_pixel south_pole)
          (map (vertex (quad_pixel south_pole)) [0, 1, 2, 3])
          (height small_cap * (2 - height small_cap)) 0"
  using
    intersects_shortcut_order [of hemisphere "quad_pixel south_pole"
      "map (vertex (quad_pixel south_pole)) [0, 1, 2, 3]"]
    intersects_shortcut_order [of "circle_bound_default (point3 0 0 1)" "quad_pixel south_pole"
      "map (vertex (quad_pixel south_pole)) [0, 1, 2, 3]"]
    intersects_shortcut_order [of half_cap "quad_pixel south_pole"
      "map (vertex (quad_pixel south_pole)) [0, 1, 2, 3]"]
    intersects_shortcut_order [of small_cap "quad_pixel south_pole"
      "map (vertex (quad_pixel south_pole)) [0, 1, 2, 3]"]
  by (simp add: hemisphere_def half_cap_def small_cap_def circle_bound_default_def
      quad_defs concrete_defs)

subsection \<open>Recursive area\<close>

lemma foldl_add_sum_list:
  "foldl (\<lambda>acc c. acc + f c) a xs = a + sum_list (map f xs)" for a :: real
  by (induction xs arbitrary: a) (simp_all add: add.assoc)

text \<open>
  C8. \<^verbatim>\<open>contained_area(pix)\<close> is \<^verbatim>\<open>pix.exact_area()\<close> when \<^verbatim>\<open>contains(pix)\<close> holds;
  otherwise, when \<^verbatim>\<open>may_intersect(pix)\<close> holds, it is the sum of \<^verbatim>\<open>contained_area\<close> over
  the children of the pixel, the four pixels of the child iteration; otherwise it is 0.
\<close>

theorem contained_area_cases:
  "contained_area B pix =
     (if contains_pixel B pix then exact_area pix
      else if may_intersect B pix then sum_list (map (contained_area B) (children pix))
      else 0)"
  by (cases pix) (simp add: foldl_add_sum_list)

subsection \<open>Pixel containment and the complement\<close>

text \<open>
  On the vertices that \<^verbatim>\<open>may_intersect\<close> passes on, four times \<^verbatim>\<open>vertex(4)\<close>, the edge
  test of the complement is false whenever \<^verbatim>\<open>contains(pix)\<close> is true.
\<close>

lemma contains_pixel_complement_fetched:
  assumes "contains_pixel B pix"
  shows "\<not> intersects (complement B) pix
      [vertex pix 4, vertex pix 4, vertex pix 4, vertex pix 4]"
proof -
  have "\<not> may_intersect (complement B) pix"
    using assms by (simp add: contains_pixel_def split: if_splits)
  then show ?thesis
    by (simp add: may_intersect_unfold)
qed

text \<open>
  C9. The specification has \<^verbatim>\<open>contains(pix)\<close> imply that the edge test of the complement
  finds no crossing on the pixel. \<^verbatim>\<open>contains(pix)\<close> asks \<^verbatim>\<open>may_intersect\<close> of the
  complement, which hands four copies of \<^verbatim>\<open>vertex(4)\<close> to the edge test. For the bound of
  height 7/4 whose complement is the small cap, and the quadrilateral: \<^verbatim>\<open>contains(pix)\<close> is
  true, and the edge test of the complement on the vertices 0 to 3 of the pixel is true:
  the complement crosses edge 0.
\<close>

theorem contains_pixel_despite_crossing:
  "complement big_cap = small_cap
   \<and> contains_pixel big_cap (quad_pixel south_pole)
   \<and> intersects (complement big_cap) (quad_pixel south_pole)
        (map (vertex (quad_pixel south_pole)) [0, 1, 2, 3])"
proof -
  have k: "complement big_cap = small_cap"
    by (simp add: complement_def from_height_def big_cap_def small_cap_def neg_def
        concrete_defs)
  have v: "contains_vertices big_cap (quad_pixel south_pole) 0"
    by (simp add: contains_vertices_unfold big_cap_def quad_defs concrete_defs)
  have "contains_pixel big_cap (quad_pixel south_pole)"
    using v small_cap_misses by (simp add: contains_pixel_def k)
  then show ?thesis
    using k small_cap_crosses by simp
qed

subsection \<open>Rounding to double\<close>

lemma floor_log2_between:
  assumes "2 powi e \<le> x" and "x < 2 powi (e + 1)"
  shows "\<lfloor>log 2 x\<rfloor> = e"
proof -
  have "0 < (2::real) powi e" by simp
  then have x: "0 < x" using assms(1) by linarith
  have "(2::real) powr real_of_int (e + 1) = 2 powi (e + 1)"
    by (rule powr_real_of_int') simp_all
  then have "(2::real) powr (real_of_int e + 1) = 2 powi (e + 1)"
    by simp
  then show ?thesis
    using assms x by (simp add: floor_log_eq_powr_iff powr_real_of_int')
qed

lemma round_half_even_of_int: "round_half_even (of_int n) = n"
  by (simp add: round_half_even_def)

lemma round_half_even_err: "\<bar>of_int (round_half_even m) - m\<bar> \<le> 1 / 2"
  unfolding round_half_even_def Let_def
  by (auto simp: abs_le_iff)

lemma round_half_even_le: "m \<le> of_int N \<Longrightarrow> round_half_even m \<le> N"
  unfolding round_half_even_def Let_def
  by (auto simp: floor_le_iff le_floor_iff)

lemma round_half_even_ge:
  assumes "of_int N \<le> m"
  shows "N \<le> round_half_even m"
proof -
  have "N \<le> \<lfloor>m\<rfloor>"
    using assms by (simp add: le_floor_iff)
  then show ?thesis
    unfolding round_half_even_def Let_def by auto
qed

lemma floor_log2_lower:
  assumes "0 < x"
  shows "2 powi \<lfloor>log 2 x\<rfloor> \<le> x"
proof -
  have "(2::real) powr real_of_int \<lfloor>log 2 x\<rfloor> \<le> x"
    using floor_log_eq_powr_iff [of x 2 "\<lfloor>log 2 x\<rfloor>"] assms by simp
  then show ?thesis
    by (simp add: powr_real_of_int')
qed

lemma floor_log2_le:
  assumes "0 < x" and "x < 2 powi (n + 1)"
  shows "\<lfloor>log 2 x\<rfloor> \<le> n"
proof (rule ccontr)
  assume "\<not> \<lfloor>log 2 x\<rfloor> \<le> n"
  then have "n + 1 \<le> \<lfloor>log 2 x\<rfloor>" by simp
  then have "(2::real) powi (n + 1) \<le> 2 powi \<lfloor>log 2 x\<rfloor>"
    by (rule power_int_increasing) simp
  also have "\<dots> \<le> x"
    using assms(1) by (rule floor_log2_lower)
  finally show False
    using assms(2) by simp
qed

lemma double_exponent_le:
  assumes "0 < x" and "x < 2 powi (n + 1)" and "- 1022 \<le> n"
  shows "double_exponent x \<le> n"
  using floor_log2_le [OF assms(1,2)] assms(1,3) by (simp add: double_exponent_def)

lemma round_double_nonneg:
  assumes "0 \<le> x"
  shows "0 \<le> round_double x"
proof (cases "x = 0")
  case True
  then show ?thesis by (simp add: round_double_def)
next
  case False
  define e where "e = double_exponent x - 52"
  have "of_int 0 \<le> x / 2 powi e"
    using assms by simp
  then have "0 \<le> round_half_even (x / 2 powi e)"
    by (rule round_half_even_ge)
  then show ?thesis
    using False by (simp add: round_double_def Let_def e_def)
qed

lemma round_double_le_2:
  assumes "0 \<le> x" and "x \<le> 2"
  shows "round_double x \<le> 2"
proof (cases "x = 0")
  case True
  then show ?thesis by (simp add: round_double_def)
next
  case False
  define e where "e = double_exponent x - 52"
  define N :: int where "N = 2 ^ nat (1 - e)"
  have x: "0 < x" using assms(1) False by simp
  have "x < 2 powi (1 + 1)" using assms(2) by simp
  with x have "double_exponent x \<le> 1"
    by (rule double_exponent_le) simp
  then have e: "e \<le> 1" by (simp add: e_def)
  have N: "real_of_int N = 2 powi (1 - e)"
    using e by (simp add: N_def power_int_nonneg_exp)
  have u: "0 < (2::real) powi e" by simp
  have "x / 2 powi e \<le> 2 / 2 powi e"
    using assms(2) u by (simp add: divide_right_mono)
  also have "\<dots> = real_of_int N"
    by (simp add: N power_int_diff)
  finally have "round_half_even (x / 2 powi e) \<le> N"
    by (rule round_half_even_le)
  then have "real_of_int (round_half_even (x / 2 powi e)) \<le> real_of_int N"
    by simp
  then have "real_of_int (round_half_even (x / 2 powi e)) * 2 powi e \<le> real_of_int N * 2 powi e"
    using u by (simp add: mult_right_mono)
  also have "\<dots> = 2"
    by (simp add: N power_int_diff)
  finally show ?thesis
    using False by (simp add: round_double_def Let_def e_def)
qed

lemma round_double_2: "round_double 2 = 2"
proof -
  have "\<lfloor>log 2 (2::real)\<rfloor> = 1"
    by simp
  then have "double_exponent 2 = 1"
    by (simp add: double_exponent_def)
  then show ?thesis
    by (simp add: round_double_def round_half_even_def power_int_minus)
qed

lemma round_double_err:
  assumes "0 \<le> x" and "x \<le> 2"
  shows "\<bar>round_double x - x\<bar> \<le> 1 / 2 ^ 53"
proof -
  consider "x = 0" | "x = 2" | "0 < x" "x < 2"
    using assms by linarith
  then show ?thesis
  proof cases
    case 1
    then show ?thesis by (simp add: round_double_def)
  next
    case 2
    then show ?thesis by (simp add: round_double_2)
  next
    case 3
    define e where "e = double_exponent x - 52"
    define m where "m = x / 2 powi e"
    have "x < 2 powi (0 + 1)" using 3 by simp
    with 3(1) have "double_exponent x \<le> 0"
      by (rule double_exponent_le) simp
    then have e: "e \<le> - 52" by (simp add: e_def)
    have u: "0 < (2::real) powi e" by simp
    have r: "round_double x = real_of_int (round_half_even m) * 2 powi e"
      using 3(1) by (simp add: round_double_def Let_def e_def m_def)
    have "round_double x - x = (real_of_int (round_half_even m) - m) * 2 powi e"
      by (simp add: r m_def algebra_simps)
    then have "\<bar>round_double x - x\<bar> = \<bar>real_of_int (round_half_even m) - m\<bar> * 2 powi e"
      by (simp add: abs_mult)
    also have "\<dots> \<le> (1 / 2) * 2 powi e"
      using round_half_even_err [of m] u by (simp add: mult_right_mono)
    also have "\<dots> \<le> (1 / 2) * 2 powi (- 52)"
      using power_int_increasing [OF e, of "2::real"] by simp
    also have "\<dots> = 1 / 2 ^ 53"
      by (simp add: power_int_minus)
    finally show ?thesis .
  qed
qed

subsection \<open>Complement twice\<close>

lemma complement_double_simps:
  "axis (complement_double B) = neg (axis B)"
  "height (complement_double B) = (if is_empty B then 2 else round_double (2 - height B))"
  by (simp_all add: complement_double_def from_height_def circle_bound_of_def double_sub_def)

lemma round_double_in_binade:
  assumes "2 powi e \<le> x" and "x < 2 powi (e + 1)" and "- 1022 \<le> e"
  shows "round_double x =
    real_of_int (round_half_even (x / 2 powi (e - 52))) * 2 powi (e - 52)"
proof -
  have "0 < (2::real) powi e" by simp
  then have x: "0 < x" using assms(1) by linarith
  have "\<lfloor>log 2 \<bar>x\<bar>\<rfloor> = e"
    using floor_log2_between [OF assms(1,2)] x by simp
  then have "double_exponent x = e"
    using assms(3) by (simp add: double_exponent_def)
  then show ?thesis
    using x by (simp add: round_double_def Let_def)
qed

lemma tenth_is_double: "round_double tenth = tenth"
proof -
  have "round_double tenth =
      real_of_int (round_half_even (tenth / 2 powi (- 4 - 52))) * 2 powi (- 4 - 52)"
    by (rule round_double_in_binade) (simp_all add: tenth_def power_int_minus)
  also have "tenth / 2 powi (- 4 - 52) = real_of_int 7205759403792794"
    by (simp add: tenth_def power_int_minus)
  also have "real_of_int (round_half_even (real_of_int 7205759403792794)) * 2 powi (- 4 - 52)
      = tenth"
    by (simp only: round_half_even_of_int) (simp add: tenth_def power_int_minus)
  finally show ?thesis .
qed

lemma first_subtraction:
  "round_double (2 - tenth) = 4278419646001971 / 2251799813685248"
proof -
  have "round_double (2 - tenth) =
      real_of_int (round_half_even ((2 - tenth) / 2 powi (0 - 52))) * 2 powi (0 - 52)"
    by (rule round_double_in_binade) (simp_all add: tenth_def)
  also have "(2 - tenth) / 2 powi (0 - 52) = 68454714336031539 / 8"
    by (simp add: tenth_def power_int_minus)
  also have "round_half_even (68454714336031539 / 8) = 8556839292003942"
    by (simp add: round_half_even_def)
  finally show ?thesis
    by (simp add: power_int_minus)
qed

lemma second_subtraction:
  "round_double (2 - 4278419646001971 / 2251799813685248) = 225179981368525 / 2251799813685248"
proof -
  have "round_double (2 - 4278419646001971 / 2251799813685248) =
      real_of_int (round_half_even ((2 - 4278419646001971 / 2251799813685248) / 2 powi (- 4 - 52)))
        * 2 powi (- 4 - 52)"
    by (rule round_double_in_binade) (simp_all add: power_int_minus)
  also have "(2 - 4278419646001971 / 2251799813685248) / 2 powi (- 4 - 52)
      = real_of_int 7205759403792800"
    by (simp add: power_int_minus)
  finally show ?thesis
    by (simp only: round_half_even_of_int) (simp add: power_int_minus)
qed

text \<open>
  C10, as stated, at a concrete input. The height is the \<^verbatim>\<open>double\<close> nearest to 0.1.
  \<^verbatim>\<open>2.0 - height_\<close> is rounded down to \<^verbatim>\<open>4278419646001971 / 2^51\<close>, the second
  subtraction is exact, and the complement of the complement has the height
  \<^verbatim>\<open>225179981368525 / 2^51\<close>, which is 0.10000000000000009 and not the height of the
  bound.
\<close>

theorem complement_twice_counterexample:
  "0 \<le> height tenth_cap \<and> height tenth_cap \<le> 2
   \<and> round_double (height tenth_cap) = height tenth_cap
   \<and> height (complement_double tenth_cap) = 4278419646001971 / 2251799813685248
   \<and> height (complement_double (complement_double tenth_cap))
       = 225179981368525 / 2251799813685248
   \<and> height (complement_double (complement_double tenth_cap)) \<noteq> height tenth_cap"
proof -
  have h: "height tenth_cap = tenth"
    by (simp add: tenth_cap_def circle_bound_of_def)
  have r: "0 \<le> tenth \<and> tenth \<le> 2"
    by (simp add: tenth_def)
  have c1: "height (complement_double tenth_cap) = 4278419646001971 / 2251799813685248"
    using r by (simp add: complement_double_simps is_empty_def h first_subtraction)
  have "\<not> is_empty (complement_double tenth_cap)"
    by (simp add: is_empty_def c1)
  then have "height (complement_double (complement_double tenth_cap))
      = round_double (2 - height (complement_double tenth_cap))"
    by (simp add: complement_double_simps(2) [of "complement_double tenth_cap"])
  then have c2: "height (complement_double (complement_double tenth_cap))
      = 225179981368525 / 2251799813685248"
    by (simp only: c1 second_subtraction)
  have "(225179981368525 / 2251799813685248 :: real) \<noteq> tenth"
    by (simp add: tenth_def)
  then show ?thesis
    using h r c1 c2 tenth_is_double by simp
qed

text \<open>
  C10, amended. For a bound of height between 0 and 2 the complement is not empty, and
  the complement of the complement has the coordinates of the axis of the bound itself
  and a height that differs from the height of the bound by at most \<^verbatim>\<open>2^-52\<close>, the
  rounding of the two subtractions.
\<close>

theorem complement_twice_up_to_rounding:
  assumes "0 \<le> height B" and "height B \<le> 2"
  shows "\<not> is_empty (complement_double B)
     \<and> px (axis (complement_double (complement_double B))) = px (axis B)
     \<and> py (axis (complement_double (complement_double B))) = py (axis B)
     \<and> pz (axis (complement_double (complement_double B))) = pz (axis B)
     \<and> \<bar>height (complement_double (complement_double B)) - height B\<bar> \<le> 1 / 2 ^ 52"
proof -
  define t where "t = round_double (2 - height B)"
  have x: "0 \<le> 2 - height B" "2 - height B \<le> 2"
    using assms by simp_all
  have t0: "0 \<le> t" unfolding t_def using x(1) by (rule round_double_nonneg)
  have t2: "t \<le> 2" unfolding t_def using x by (rule round_double_le_2)
  have e1: "\<bar>t - (2 - height B)\<bar> \<le> 1 / 2 ^ 53"
    unfolding t_def using x by (rule round_double_err)
  have y: "0 \<le> 2 - t" "2 - t \<le> 2"
    using t0 t2 by simp_all
  have e2: "\<bar>round_double (2 - t) - (2 - t)\<bar> \<le> 1 / 2 ^ 53"
    using y by (rule round_double_err)
  have ht: "height (complement_double B) = t"
    using assms(1) by (simp add: complement_double_simps is_empty_def t_def)
  have hh: "height (complement_double (complement_double B)) = round_double (2 - t)"
    using t0 by (simp add: complement_double_simps(2) [of "complement_double B"] ht is_empty_def)
  have "\<bar>round_double (2 - t) - height B\<bar> \<le> 1 / 2 ^ 53 + 1 / 2 ^ 53"
    using e1 e2 by linarith
  also have "\<dots> = (1::real) / 2 ^ 52"
    by simp
  finally have "\<bar>height (complement_double (complement_double B)) - height B\<bar> \<le> 1 / 2 ^ 52"
    by (simp only: hh)
  moreover have "\<not> is_empty (complement_double B)"
    using t0 by (simp add: is_empty_def ht)
  ultimately show ?thesis
    by (simp add: complement_double_simps(1) neg_def)
qed

theorem complement_twice_up_to_rounding_witness:
  "0 \<le> height tenth_cap \<and> height tenth_cap \<le> 2
   \<and> \<not> is_empty (complement_double tenth_cap)
   \<and> pz (axis (complement_double (complement_double tenth_cap))) = 1
   \<and> \<bar>height (complement_double (complement_double tenth_cap)) - height tenth_cap\<bar>
       \<le> 1 / 2 ^ 52"
proof -
  have h: "0 \<le> height tenth_cap" "height tenth_cap \<le> 2"
    by (simp_all add: tenth_cap_def circle_bound_of_def tenth_def)
  show ?thesis
    using complement_twice_up_to_rounding [OF h] h
    by (simp add: tenth_cap_def circle_bound_of_def point3_def)
qed

end
